theory Spec2Isabelle
  imports Main
begin

section \<open>Data of the worker\<close>

text \<open>
  The worker (\<^verbatim>\<open>src/worker.js\<close>) receives a Logpush batch, keeps one device name per
  device identifier, asks the WARP API for the address of every device and brings the
  A records of a DNS zone in line with the answers.

  A DNS record as the DNS API returns it: the worker reads \<^verbatim>\<open>id\<close>, \<^verbatim>\<open>name\<close> and
  \<^verbatim>\<open>content\<close>. The fields are prefixed where the plain name is taken (\<open>id\<close> is the
  identity function of HOL, \<open>name\<close> is a field of the action below). Identifiers are
  opaque; they are numbers here so that the store can hand out a fresh one.
\<close>

record dns_record =
  rec_id :: nat
  rec_name :: string
  content :: string

text \<open>\<^verbatim>\<open>deviceData = { name, ipv4 }\<close>, the argument of \<^verbatim>\<open>manageDNSRecord\<close>.\<close>

record device =
  dev_name :: string
  dev_ipv4 :: string

text \<open>The part of \<^verbatim>\<open>env\<close> that decides a result; the other variables only address
  and authenticate the two services.\<close>

record env =
  DOMAIN_SUFFIX :: string

text \<open>The object \<^verbatim>\<open>manageDNSRecord\<close> returns; \<^verbatim>\<open>deleted_duplicate\<close> is present in one
  branch only.\<close>

record dns_action =
  action :: string
  name :: string
  ipv4 :: string
  deleted_duplicate :: "string option"

text \<open>\<^verbatim>\<open>data.result\<close> of the WARP API, as far as the worker reads it:
  \<^verbatim>\<open>deviceDetails.metadata.ipv4\<close>. A missing property is \<open>None\<close>.\<close>

record warp_metadata =
  md_ipv4 :: "string option"

record warp_device =
  metadata :: "warp_metadata option"

text \<open>One line of the batch after \<^verbatim>\<open>JSON.parse\<close>. Destructuring
  \<^verbatim>\<open>const { DeviceID, DeviceName } = entry\<close> throws on \<^verbatim>\<open>null\<close>; on every other value it
  reads two properties, each a string of the Logpush dataset or missing.\<close>

datatype log_line = Null_line | Entry "string option" "string option"

section \<open>The two services\<close>

text \<open>
  What a \<^verbatim>\<open>fetch\<close> of the WARP API followed by \<^verbatim>\<open>response.json()\<close> can give:
  a thrown error (network failure, a body that is not JSON, a body without the properties
  read), or \<^verbatim>\<open>data\<close> with its \<^verbatim>\<open>success\<close> flag and its \<^verbatim>\<open>result\<close>.
\<close>

datatype dir_reply = Dir_throws | Dir_data bool "warp_device option"

text \<open>The requests the worker sends to the DNS API, by method and query:
  \<^verbatim>\<open>GET ?type=A&name=\<close>, \<^verbatim>\<open>GET ?type=A&content=\<close>, \<^verbatim>\<open>POST\<close>, \<^verbatim>\<open>PUT /id\<close>, \<^verbatim>\<open>DELETE /id\<close>.
  The argument of a \<^verbatim>\<open>GET\<close> is the string the worker pastes after the \<^verbatim>\<open>=\<close>, not yet what
  the API makes of it.\<close>

datatype dns_call =
  GetByName string
  | GetByContent string
  | Post string string
  | Put nat string string
  | Delete nat

text \<open>How one call to the DNS API ends: it is served; it is answered with a response
  that reports failure (\<^verbatim>\<open>success: false\<close>) and the zone is left alone; or it throws
  (\<^verbatim>\<open>fetch\<close> rejects, or the body of a lookup cannot be read).\<close>

datatype fault = NoFault | ApiFailure | Throw

text \<open>
  The world outside the worker: the answers of the WARP API by device identifier, the A
  records of the zone in the order the API lists them, the next identifier the zone
  hands out, the fate of the coming DNS calls (one entry per call, served when the list
  is exhausted), the DNS calls issued so far, oldest first, and what becomes of a string
  that is pasted into a query string (see \<open>query_value\<close> below).
\<close>

record world =
  directory :: "string \<Rightarrow> dir_reply"
  zone :: "dns_record list"
  next_id :: nat
  faults :: "fault list"
  calls :: "dns_call list"
  mangle :: "string \<Rightarrow> string"

text \<open>
  The two lookups paste their argument into the URL as it is, with no encoding:
  \<^verbatim>\<open>`...dns_records?type=A&name=${name}`\<close> and \<^verbatim>\<open>`...dns_records?type=A&content=${ipv4}`\<close>.
  So \<open>GetByName n\<close> and \<open>GetByContent a\<close> stand for the request as the worker writes it,
  and what the DNS API reads as the value of the parameter is another matter: \<^verbatim>\<open>fetch\<close>
  parses the URL and the API parses the query, a \<^verbatim>\<open>#\<close> starts a fragment that is never
  sent, a \<^verbatim>\<open>&\<close> ends the parameter, \<^verbatim>\<open>+\<close> and \<^verbatim>\<open>%\<close> are decoded. Neither parser is in the
  repository. A non-empty string of unreserved characters is read as it was written;
  for every other string the value read is the world's \<open>mangle\<close>.
\<close>

definition unreserved :: string where
  "unreserved =
     ''abcdefghijklmnopqrstuvwxyzABCDEFGHIJKLMNOPQRSTUVWXYZ0123456789-._~''"

definition url_plain :: "string \<Rightarrow> bool" where
  "url_plain s = (s \<noteq> [] \<and> list_all (\<lambda>c. c \<in> set unreserved) s)"

definition query_value :: "world \<Rightarrow> string \<Rightarrow> string" where
  "query_value w s = (if url_plain s then s else mangle w s)"

text \<open>A thrown JavaScript error; the worker never inspects it.\<close>

datatype exn = Thrown

type_synonym 'a io = "world \<Rightarrow> (exn + 'a) \<times> world"

definition return_io :: "'a \<Rightarrow> 'a io" where
  "return_io x w = (Inr x, w)"

definition throw_io :: "exn \<Rightarrow> 'a io" where
  "throw_io e w = (Inl e, w)"

text \<open>\<^verbatim>\<open>await\<close> in sequence: an error of the first computation ends both.\<close>

definition bind_io :: "'a io \<Rightarrow> ('a \<Rightarrow> 'b io) \<Rightarrow> 'b io" where
  "bind_io m f w = (case m w of (Inl e, w') \<Rightarrow> (Inl e, w') | (Inr x, w') \<Rightarrow> f x w')"

text \<open>\<^verbatim>\<open>try { m } catch (error) { h }\<close>.\<close>

definition catch_io :: "'a io \<Rightarrow> (exn \<Rightarrow> 'a io) \<Rightarrow> 'a io" where
  "catch_io m h w = (case m w of (Inl e, w') \<Rightarrow> h e w' | (Inr x, w') \<Rightarrow> (Inr x, w'))"

text \<open>
  Modelled from the spec: the DNS record store of section 4.3, an external service of
  which the repository holds only the calls. \<open>store_result\<close> is \<^verbatim>\<open>data.result\<close> of a
  served call: the records with the name, or bound to the address, that the API reads
  from the query, in zone order (\<open>findRecordByName\<close>, \<open>findRecordByAddress\<close>); the worker
  reads the body of no other call. \<open>store_apply\<close> is the effect of a served call on the zone: \<open>createRecord\<close> adds a
  record under a fresh identifier, \<open>updateRecord\<close> rewrites the record with the
  identifier, \<open>deleteRecord\<close> removes it.
\<close>

fun store_result :: "dns_call \<Rightarrow> world \<Rightarrow> dns_record list" where
  "store_result (GetByName n) w = filter (\<lambda>r. rec_name r = query_value w n) (zone w)"
| "store_result (GetByContent a) w = filter (\<lambda>r. content r = query_value w a) (zone w)"
| "store_result (Post n a) w = []"
| "store_result (Put i n a) w = []"
| "store_result (Delete i) w = []"

fun store_apply :: "dns_call \<Rightarrow> world \<Rightarrow> world" where
  "store_apply (GetByName n) w = w"
| "store_apply (GetByContent a) w = w"
| "store_apply (Post n a) w =
     w\<lparr>zone := zone w @ [\<lparr>rec_id = next_id w, rec_name = n, content = a\<rparr>],
       next_id := Suc (next_id w)\<rparr>"
| "store_apply (Put i n a) w =
     w\<lparr>zone := map (\<lambda>r. if rec_id r = i then r\<lparr>rec_name := n, content := a\<rparr> else r) (zone w)\<rparr>"
| "store_apply (Delete i) w = w\<lparr>zone := filter (\<lambda>r. rec_id r \<noteq> i) (zone w)\<rparr>"

definition next_fault :: "world \<Rightarrow> fault" where
  "next_fault w = (case faults w of [] \<Rightarrow> NoFault | f # fs \<Rightarrow> f)"

text \<open>
  \<^verbatim>\<open>fetch\<close> of the DNS API: the call is recorded and its fate taken from the list. The
  value is \<^verbatim>\<open>(data.success, data.result)\<close> of the response.
\<close>

definition issue :: "dns_call \<Rightarrow> world \<Rightarrow> world" where
  "issue c w = w\<lparr>faults := tl (faults w), calls := calls w @ [c]\<rparr>"

definition dns_fetch :: "dns_call \<Rightarrow> (bool \<times> dns_record list) io" where
  "dns_fetch c w =
     (let w1 = issue c w in
      case next_fault w of
        Throw \<Rightarrow> (Inl Thrown, w1)
      | ApiFailure \<Rightarrow> (Inr (False, []), w1)
      | NoFault \<Rightarrow> (Inr (True, store_result c w), store_apply c w1))"


text \<open>The world once a call has been issued, whatever its fate.\<close>

definition after_call :: "dns_call \<Rightarrow> world \<Rightarrow> world" where
  "after_call c w = (if next_fault w = NoFault then store_apply c (issue c w) else issue c w)"

text \<open>\<^verbatim>\<open>fetch\<close> of the WARP API with \<^verbatim>\<open>response.json()\<close>: a read of the directory.\<close>

definition warp_fetch :: "string \<Rightarrow> (bool \<times> warp_device option) io" where
  "warp_fetch deviceId w =
     (case directory w deviceId of
        Dir_throws \<Rightarrow> (Inl Thrown, w)
      | Dir_data success result \<Rightarrow> (Inr (success, result), w))"

section \<open>The functions of the worker\<close>

text \<open>\<^verbatim>\<open>getDeviceDetails\<close>: \<^verbatim>\<open>null\<close> when the response reports no success and when
  anything throws.\<close>

definition getDeviceDetails :: "string \<Rightarrow> env \<Rightarrow> warp_device option io" where
  "getDeviceDetails deviceId e =
     catch_io
       (bind_io (warp_fetch deviceId) (\<lambda>(success, result).
          if \<not> success then return_io None else return_io result))
       (\<lambda>error. return_io None)"

text \<open>\<^verbatim>\<open>getDNSRecord\<close> and \<^verbatim>\<open>findDuplicateDNSRecord\<close>: the request with the argument
  pasted into the query, then
  \<^verbatim>\<open>data.success && data.result.length > 0 ? data.result[0] : null\<close>.\<close>

definition getDNSRecord :: "string \<Rightarrow> env \<Rightarrow> dns_record option io" where
  "getDNSRecord n e =
     bind_io (dns_fetch (GetByName n)) (\<lambda>(success, result).
       return_io (if success \<and> length result > 0 then Some (result ! 0) else None))"

definition findDuplicateDNSRecord :: "string \<Rightarrow> env \<Rightarrow> dns_record option io" where
  "findDuplicateDNSRecord a e =
     bind_io (dns_fetch (GetByContent a)) (\<lambda>(success, result).
       return_io (if success \<and> length result > 0 then Some (result ! 0) else None))"

text \<open>The three mutations await the \<^verbatim>\<open>fetch\<close> and drop the response. Name and
  address travel in the JSON body, as they are.\<close>

definition createDNSRecord :: "string \<Rightarrow> string \<Rightarrow> env \<Rightarrow> unit io" where
  "createDNSRecord n a e = bind_io (dns_fetch (Post n a)) (\<lambda>response. return_io ())"

definition updateDNSRecord :: "nat \<Rightarrow> string \<Rightarrow> string \<Rightarrow> env \<Rightarrow> unit io" where
  "updateDNSRecord recordId n a e = bind_io (dns_fetch (Put recordId n a)) (\<lambda>response. return_io ())"

definition deleteDNSRecord :: "nat \<Rightarrow> env \<Rightarrow> unit io" where
  "deleteDNSRecord recordId e = bind_io (dns_fetch (Delete recordId)) (\<lambda>response. return_io ())"

text \<open>The template \<^verbatim>\<open>`${device.name}.${env.DOMAIN_SUFFIX}`\<close>.\<close>

definition dnsName :: "device \<Rightarrow> env \<Rightarrow> string" where
  "dnsName d e = dev_name d @ ''.'' @ DOMAIN_SUFFIX e"

definition manageDNSRecord :: "device \<Rightarrow> env \<Rightarrow> dns_action io" where
  "manageDNSRecord d e =
     bind_io (getDNSRecord (dnsName d e) e) (\<lambda>existingRecord.
       case existingRecord of
         None \<Rightarrow>
           bind_io (createDNSRecord (dnsName d e) (dev_ipv4 d) e) (\<lambda>u.
             return_io \<lparr>action = ''created'', name = dnsName d e, ipv4 = dev_ipv4 d,
               deleted_duplicate = None\<rparr>)
       | Some ex \<Rightarrow>
           if content ex \<noteq> dev_ipv4 d then
             bind_io (findDuplicateDNSRecord (dev_ipv4 d) e) (\<lambda>duplicateRecord.
               case duplicateRecord of
                 Some dup \<Rightarrow>
                   bind_io (deleteDNSRecord (rec_id dup) e) (\<lambda>u.
                   bind_io (updateDNSRecord (rec_id ex) (dnsName d e) (dev_ipv4 d) e) (\<lambda>u.
                     return_io \<lparr>action = ''updated'', name = dnsName d e, ipv4 = dev_ipv4 d,
                       deleted_duplicate = Some (rec_name dup)\<rparr>))
               | None \<Rightarrow>
                   bind_io (updateDNSRecord (rec_id ex) (dnsName d e) (dev_ipv4 d) e) (\<lambda>u.
                     return_io \<lparr>action = ''updated'', name = dnsName d e, ipv4 = dev_ipv4 d,
                       deleted_duplicate = None\<rparr>))
           else
             return_io \<lparr>action = ''no-change'', name = dnsName d e, ipv4 = dev_ipv4 d,
               deleted_duplicate = None\<rparr>)"

subsection \<open>The request handler\<close>

text \<open>JavaScript truthiness of a property that is a string or missing.\<close>

fun truthy :: "string option \<Rightarrow> bool" where
  "truthy None = False"
| "truthy (Some s) = (s \<noteq> [])"

text \<open>\<^verbatim>\<open>Map.prototype.set\<close>: a key already present keeps its place and takes the new
  value; a new key goes to the end. Iteration is in this order.\<close>

fun map_set :: "('k \<times> 'v) list \<Rightarrow> 'k \<Rightarrow> 'v \<Rightarrow> ('k \<times> 'v) list" where
  "map_set [] k v = [(k, v)]"
| "map_set ((k', v') # m) k v = (if k' = k then (k, v) # m else (k', v') # map_set m k v)"

text \<open>The \<^verbatim>\<open>forEach\<close> that fills \<^verbatim>\<open>uniqueDevices\<close>, from the map built so far.\<close>

fun uniqueDevices :: "log_line list \<Rightarrow> (string \<times> string) list \<Rightarrow> exn + (string \<times> string) list" where
  "uniqueDevices [] m = Inr m"
| "uniqueDevices (Null_line # es) m = Inl Thrown"
| "uniqueDevices (Entry DeviceID DeviceName # es) m =
     (if truthy DeviceID \<and> truthy DeviceName
      then uniqueDevices es (map_set m (the DeviceID) (the DeviceName))
      else uniqueDevices es m)"

text \<open>\<^verbatim>\<open>!deviceDetails || !deviceDetails.metadata || !deviceDetails.metadata.ipv4\<close>.\<close>

definition no_ipv4 :: "warp_device option \<Rightarrow> bool" where
  "no_ipv4 deviceDetails =
     (case deviceDetails of
        None \<Rightarrow> True
      | Some dd \<Rightarrow> (case metadata dd of None \<Rightarrow> True | Some md \<Rightarrow> \<not> truthy (md_ipv4 md)))"

text \<open>The \<^verbatim>\<open>for ... of uniqueDevices\<close> loop, with \<^verbatim>\<open>actions\<close> as built so far. The
  object \<^verbatim>\<open>manageDNSRecord\<close> returns is always truthy, so it is always pushed.\<close>

fun process_devices :: "env \<Rightarrow> (string \<times> string) list \<Rightarrow> dns_action list \<Rightarrow> dns_action list io" where
  "process_devices e [] actions = return_io actions"
| "process_devices e ((deviceId, deviceName) # ds) actions =
     bind_io (getDeviceDetails deviceId e) (\<lambda>deviceDetails.
       if no_ipv4 deviceDetails then process_devices e ds actions
       else
         bind_io (manageDNSRecord
                    \<lparr>dev_name = deviceName,
                     dev_ipv4 = the (md_ipv4 (the (metadata (the deviceDetails))))\<rparr> e)
           (\<lambda>a. process_devices e ds (actions @ [a])))"

text \<open>
  The request: its method, and what decompressing the body and parsing every line
  gives, \<open>None\<close> when either throws (both belong to the runtime).
\<close>

record request =
  http_method :: string
  lines :: "log_line list option"

datatype body = Text string | Json "dns_action list"

record response =
  status :: nat
  body :: body

text \<open>The body of the \<^verbatim>\<open>try\<close> block of \<^verbatim>\<open>fetch\<close>.\<close>

definition handle_batch :: "request \<Rightarrow> env \<Rightarrow> dns_action list io" where
  "handle_batch req e =
     (case lines req of
        None \<Rightarrow> throw_io Thrown
      | Some logEntries \<Rightarrow>
          (case uniqueDevices logEntries [] of
             Inl err \<Rightarrow> throw_io err
           | Inr devices \<Rightarrow> process_devices e devices []))"

definition fetch_handler :: "request \<Rightarrow> env \<Rightarrow> world \<Rightarrow> response \<times> world" where
  "fetch_handler req e w =
     (if http_method req \<noteq> ''POST''
      then (\<lparr>status = 405, body = Text ''Only POST requests are allowed''\<rparr>, w)
      else
        (case handle_batch req e w of
           (Inr actions, w') \<Rightarrow> (\<lparr>status = 200, body = Json actions\<rparr>, w')
         | (Inl error, w') \<Rightarrow> (\<lparr>status = 500, body = Text ''Error processing data''\<rparr>, w')))"

subsection \<open>What the claims speak of\<close>

text \<open>The records a hostname resolves to, and the records of other hostnames that are
  bound to an address.\<close>

definition records_named :: "string \<Rightarrow> dns_record list \<Rightarrow> dns_record list" where
  "records_named n z = filter (\<lambda>r. rec_name r = n) z"

definition other_holders :: "string \<Rightarrow> string \<Rightarrow> dns_record list \<Rightarrow> dns_record list" where
  "other_holders n a z = filter (\<lambda>r. content r = a \<and> rec_name r \<noteq> n) z"

text \<open>
  \<open>lookupDevice\<close> follows the words of the spec (section 4.3): the address the directory
  gives for a device, absent on any error and on a response without an address. It is
  what \<open>getDeviceDetails\<close> and the guard of the loop are compared with.
\<close>

fun lookupDevice :: "dir_reply \<Rightarrow> string option" where
  "lookupDevice Dir_throws = None"
| "lookupDevice (Dir_data success result) =
     (if \<not> success then None
      else
        (case result of
           None \<Rightarrow> None
         | Some dd \<Rightarrow>
             (case metadata dd of
                None \<Rightarrow> None
              | Some md \<Rightarrow>
                  (case md_ipv4 md of
                     None \<Rightarrow> None
                   | Some a \<Rightarrow> if a = [] then None else Some a))))"

text \<open>
  \<open>last_name\<close> follows the words of the spec (section 4.2): the name of the last
  occurrence of a device identifier in the batch, an occurrence being a line with both
  the identifier and the name present. It is what \<open>uniqueDevices\<close> is compared with.
\<close>

fun last_name :: "string \<Rightarrow> log_line list \<Rightarrow> string option" where
  "last_name i [] = None"
| "last_name i (Null_line # es) = last_name i es"
| "last_name i (Entry DeviceID DeviceName # es) =
     (case last_name i es of
        Some n \<Rightarrow> Some n
      | None \<Rightarrow> if DeviceID = Some i \<and> i \<noteq> [] \<and> truthy DeviceName then DeviceName else None)"

definition records_bound :: "string \<Rightarrow> dns_record list \<Rightarrow> dns_record list" where
  "records_bound a z = filter (\<lambda>r. content r = a) z"

text \<open>The next \<open>k\<close> calls to the DNS API are served.\<close>

definition served :: "nat \<Rightarrow> world \<Rightarrow> bool" where
  "served k w = list_all (\<lambda>f. f = NoFault) (take k (faults w))"

subsection \<open>Worlds and devices of the examples\<close>

definition demo_env :: env where
  "demo_env = \<lparr>DOMAIN_SUFFIX = ''example.com''\<rparr>"

definition rec_a :: dns_record where
  "rec_a = \<lparr>rec_id = 1, rec_name = ''a.example.com'', content = ''10.0.0.1''\<rparr>"

definition rec_b :: dns_record where
  "rec_b = \<lparr>rec_id = 2, rec_name = ''b.example.com'', content = ''10.0.0.9''\<rparr>"

definition rec_c :: dns_record where
  "rec_c = \<lparr>rec_id = 3, rec_name = ''c.example.com'', content = ''10.0.0.1''\<rparr>"

definition dev_b :: device where
  "dev_b = \<lparr>dev_name = ''b'', dev_ipv4 = ''10.0.0.1''\<rparr>"

text \<open>A directory that knows two devices, \<open>dev-1\<close> at 10.0.0.1 and \<open>dev-2\<close> at
  10.0.0.2, and fails for every other identifier.\<close>

definition demo_directory :: "string \<Rightarrow> dir_reply" where
  "demo_directory deviceId =
     (if deviceId = ''dev-1''
      then Dir_data True (Some \<lparr>metadata = Some \<lparr>md_ipv4 = Some ''10.0.0.1''\<rparr>\<rparr>)
      else if deviceId = ''dev-2''
      then Dir_data True (Some \<lparr>metadata = Some \<lparr>md_ipv4 = Some ''10.0.0.2''\<rparr>\<rparr>)
      else Dir_throws)"

text \<open>What is sent of a pasted string ends before the first \<^verbatim>\<open>#\<close>.\<close>

definition demo_mangle :: "string \<Rightarrow> string" where
  "demo_mangle s = takeWhile (\<lambda>c. c \<noteq> CHR ''#'') s"

definition rec_h :: dns_record where
  "rec_h = \<lparr>rec_id = 4, rec_name = ''r#d.example.com'', content = ''10.0.0.9''\<rparr>"

definition dev_h :: device where
  "dev_h = \<lparr>dev_name = ''r#d'', dev_ipv4 = ''10.0.0.1''\<rparr>"

definition demo_world :: "dns_record list \<Rightarrow> fault list \<Rightarrow> world" where
  "demo_world z fs =
     \<lparr>directory = demo_directory, zone = z, next_id = 100, faults = fs, calls = [],
      mangle = demo_mangle\<rparr>"

section \<open>Calls to the DNS API, one by one\<close>

lemma bind_return [simp]: "bind_io (return_io x) f w = f x w"
  by (simp add: bind_io_def return_io_def)

lemma issue_fields [simp]:
  "mangle (issue c w) = mangle w"
  "zone (issue c w) = zone w"
  "calls (issue c w) = calls w @ [c]"
  "faults (issue c w) = tl (faults w)"
  "next_id (issue c w) = next_id w"
  "directory (issue c w) = directory w"
  by (simp_all add: issue_def)

lemma first_match_some: "filter P z \<noteq> [] \<Longrightarrow> Some (filter P z ! 0) = find P z"
  by (induction z) auto

lemma first_match_none: "filter P z = [] \<Longrightarrow> find P z = None"
  by (induction z) (auto split: if_splits)

lemma dns_fetch_eq:
  "dns_fetch c w =
     ((case next_fault w of Throw \<Rightarrow> Inl Thrown | ApiFailure \<Rightarrow> Inr (False, [])
        | NoFault \<Rightarrow> Inr (True, store_result c w)), after_call c w)"
  by (simp add: dns_fetch_def after_call_def Let_def split: fault.splits)

text \<open>A lookup returns the first record of the zone that matches, when it is served.\<close>

lemma getDNSRecord_eq:
  "getDNSRecord n e w =
     ((case next_fault w of Throw \<Rightarrow> Inl Thrown | ApiFailure \<Rightarrow> Inr None
        | NoFault \<Rightarrow> Inr (find (\<lambda>r. rec_name r = query_value w n) (zone w))),
      issue (GetByName n) w)"
  by (simp add: getDNSRecord_def bind_io_def dns_fetch_eq after_call_def return_io_def
      first_match_some first_match_none split: fault.splits)

lemma findDuplicateDNSRecord_eq:
  "findDuplicateDNSRecord a e w =
     ((case next_fault w of Throw \<Rightarrow> Inl Thrown | ApiFailure \<Rightarrow> Inr None
        | NoFault \<Rightarrow> Inr (find (\<lambda>r. content r = query_value w a) (zone w))),
      issue (GetByContent a) w)"
  by (simp add: findDuplicateDNSRecord_def bind_io_def dns_fetch_eq after_call_def return_io_def
      first_match_some first_match_none split: fault.splits)

text \<open>A mutation fails only by throwing.\<close>

lemma createDNSRecord_eq:
  "createDNSRecord n a e w =
     ((if next_fault w = Throw then Inl Thrown else Inr ()), after_call (Post n a) w)"
  by (simp add: createDNSRecord_def bind_io_def dns_fetch_eq return_io_def split: fault.splits)

lemma updateDNSRecord_eq:
  "updateDNSRecord i n a e w =
     ((if next_fault w = Throw then Inl Thrown else Inr ()), after_call (Put i n a) w)"
  by (simp add: updateDNSRecord_def bind_io_def dns_fetch_eq return_io_def split: fault.splits)

lemma deleteDNSRecord_eq:
  "deleteDNSRecord i e w =
     ((if next_fault w = Throw then Inl Thrown else Inr ()), after_call (Delete i) w)"
  by (simp add: deleteDNSRecord_def bind_io_def dns_fetch_eq return_io_def split: fault.splits)

lemma after_call_calls [simp]: "calls (after_call c w) = calls w @ [c]"
  by (cases c) (simp_all add: after_call_def)

lemma after_call_faults [simp]: "faults (after_call c w) = tl (faults w)"
  by (cases c) (simp_all add: after_call_def)

lemma after_call_directory [simp]: "directory (after_call c w) = directory w"
  by (cases c) (simp_all add: after_call_def)

lemma store_apply_fields [simp]:
  "mangle (store_apply c w) = mangle w"
  "faults (store_apply c w) = faults w"
  "calls (store_apply c w) = calls w"
  "directory (store_apply c w) = directory w"
  by (cases c; simp)+

text \<open>What the API reads does not change while the worker runs, and a plain string is
  read as written.\<close>

lemma query_value_kept [simp]:
  "query_value (issue c w) s = query_value w s"
  "query_value (store_apply c w) s = query_value w s"
  "query_value (zone_update f w) s = query_value w s"
  "query_value (next_id_update g w) s = query_value w s"
  by (simp_all add: query_value_def)

lemma query_value_plain: "url_plain s \<Longrightarrow> query_value w s = s"
  by (simp add: query_value_def)

lemma plain_examples [simp]:
  "query_value w ''a.example.com'' = ''a.example.com''"
  "query_value w ''b.example.com'' = ''b.example.com''"
  "query_value w ''10.0.0.1'' = ''10.0.0.1''"
  by (simp_all add: query_value_def url_plain_def unreserved_def)

lemma next_fault_update [simp]:
  "next_fault (zone_update f w) = next_fault w"
  "next_fault (next_id_update g w) = next_fault w"
  by (simp_all add: next_fault_def)

lemma next_fault_store_apply [simp]: "next_fault (store_apply c w) = next_fault w"
  by (simp add: next_fault_def)

lemma served_store_apply [simp]: "served k (store_apply c w) = served k w"
  by (simp add: served_def)

lemma served_Suc:
  assumes "served (Suc k) w"
  shows "next_fault w = NoFault" "served k (issue c w)"
  using assms by (cases "faults w"; simp add: served_def next_fault_def)+

lemma served_4:
  assumes "served 4 w"
  shows "next_fault w = NoFault" "next_fault (issue c1 w) = NoFault"
    "next_fault (issue c2 (issue c1 w)) = NoFault"
    "next_fault (issue c3 (issue c2 (issue c1 w))) = NoFault"
proof -
  have s3: "served 3 (issue c1 w)"
    using served_Suc(2) [of 3 w] assms by (simp add: eval_nat_numeral)
  then have s2: "served 2 (issue c2 (issue c1 w))"
    using served_Suc(2) [of 2 "issue c1 w"] by (simp add: eval_nat_numeral)
  then have s1: "served 1 (issue c3 (issue c2 (issue c1 w)))"
    using served_Suc(2) [of 1 "issue c2 (issue c1 w)"] by (simp add: eval_nat_numeral)
  show "next_fault w = NoFault"
    using served_Suc(1) [of 3 w] assms by (simp add: eval_nat_numeral)
  show "next_fault (issue c1 w) = NoFault"
    using served_Suc(1) [of 2 "issue c1 w"] s3 by (simp add: eval_nat_numeral)
  show "next_fault (issue c2 (issue c1 w)) = NoFault"
    using served_Suc(1) [of 1 "issue c2 (issue c1 w)"] s2 by (simp add: eval_nat_numeral)
  show "next_fault (issue c3 (issue c2 (issue c1 w))) = NoFault"
    using served_Suc(1) [of 0 "issue c3 (issue c2 (issue c1 w))"] s1 by simp
qed


lemma served_zero [simp]: "served 0 w"
  by (simp add: served_def)

lemma find_filter: "find P z = (case filter P z of [] \<Rightarrow> None | x # xs \<Rightarrow> Some x)"
  by (induction z) auto

lemma after_call_served:
  "next_fault w = NoFault \<Longrightarrow> after_call c w = store_apply c (issue c w)"
  by (simp add: after_call_def)

lemma id_eq:
  "distinct (map rec_id z) \<Longrightarrow> x \<in> set z \<Longrightarrow> y \<in> set z \<Longrightarrow> rec_id x = rec_id y \<Longrightarrow> x = y"
  by (auto simp: distinct_map dest: inj_onD)

lemma find_SomeD: "find P z = Some x \<Longrightarrow> x \<in> set z \<and> P x"
  by (induction z) (auto split: if_splits)

lemma put_member:
  "distinct (map rec_id z) \<Longrightarrow> x \<in> set z \<Longrightarrow>
   set (map (\<lambda>r. if rec_id r = rec_id x then f r else r) z) = insert (f x) (set z - {x})"
proof -
  assume d: "distinct (map rec_id z)" and x: "x \<in> set z"
  have "\<And>r. r \<in> set z \<Longrightarrow> (rec_id r = rec_id x) = (r = x)"
    using id_eq [OF d _ x] by blast
  then have "map (\<lambda>r. if rec_id r = rec_id x then f r else r) z
      = map (\<lambda>r. if r = x then f x else r) z"
    by (intro map_cong) simp_all
  then show ?thesis
    using x by auto
qed

lemma put_only:
  assumes d: "distinct (map rec_id z)" and x: "x \<in> set z"
  shows "map (\<lambda>r. if rec_id r = rec_id x then f r else r) z
       = map (\<lambda>r. if r = x then f x else r) z"
proof -
  have "\<And>r. r \<in> set z \<Longrightarrow> (rec_id r = rec_id x) = (r = x)"
    using id_eq [OF d _ x] by blast
  then show ?thesis
    by (intro map_cong) simp_all
qed

text \<open>Updating the one record of a hostname, in a zone where nothing is bound to the
  address yet.\<close>

lemma put_steady:
  assumes d: "distinct (map rec_id z)"
    and named: "records_named n z = [ex]"
    and free: "records_bound a z = []"
    and z': "z' = map (\<lambda>r. if rec_id r = rec_id ex then r\<lparr>rec_name := n, content := a\<rparr> else r) z"
  shows "records_named n z' = [ex\<lparr>rec_name := n, content := a\<rparr>]"
    and "other_holders n a z' = []"
proof -
  let ?g = "\<lambda>r. if r = ex then ex\<lparr>rec_name := n, content := a\<rparr> else r"
  have "ex \<in> set (records_named n z)"
    using named by simp
  then have ex: "ex \<in> set z" "rec_name ex = n"
    by (simp_all add: records_named_def)
  have z'': "z' = map ?g z"
    unfolding z' by (rule put_only [OF d ex(1)])
  have "filter ((\<lambda>r. rec_name r = n) \<circ> ?g) z = filter (\<lambda>r. rec_name r = n) z"
    by (rule filter_cong) (auto simp: ex)
  then show "records_named n z' = [ex\<lparr>rec_name := n, content := a\<rparr>]"
    using named by (simp add: z'' records_named_def filter_map)
  have nobody: "\<And>r. r \<in> set z \<Longrightarrow> content r \<noteq> a"
    using free by (auto simp: records_bound_def filter_empty_conv)
  have "filter ((\<lambda>r. content r = a \<and> rec_name r \<noteq> n) \<circ> ?g) z = []"
    using nobody by (auto simp: filter_empty_conv)
  then show "other_holders n a z' = []"
    by (simp add: z'' other_holders_def filter_map)
qed

lemma at_most_one:
  "length (filter P z) \<le> 1 \<Longrightarrow> x \<in> set z \<Longrightarrow> P x \<Longrightarrow> y \<in> set z \<Longrightarrow> P y \<Longrightarrow> x = y"
proof -
  assume l: "length (filter P z) \<le> 1" and "x \<in> set z" "P x" "y \<in> set z" "P y"
  then have m: "x \<in> set (filter P z)" "y \<in> set (filter P z)"
    by simp_all
  show "x = y"
  proof (cases "filter P z")
    case Nil
    with m show ?thesis by simp
  next
    case (Cons r rs)
    with l have "rs = []" by simp
    with Cons m show ?thesis by simp
  qed
qed

lemma find_single:
  "length (filter P z) \<le> 1 \<Longrightarrow> find P z = Some x \<Longrightarrow> filter P z = [x]"
  by (cases "filter P z") (auto simp: find_filter)

lemmas demo_defs = demo_env_def rec_a_def rec_b_def rec_c_def rec_h_def dev_b_def dev_h_def
  demo_world_def dnsName_def

lemmas mangle_defs = query_value_def url_plain_def unreserved_def demo_mangle_def

lemmas call_eqs = manageDNSRecord_def bind_io_def return_io_def getDNSRecord_eq
  findDuplicateDNSRecord_eq createDNSRecord_eq deleteDNSRecord_eq updateDNSRecord_eq

lemmas run_defs = call_eqs after_call_def next_fault_def

section \<open>Reconciling one device\<close>

text \<open>
  Claim C7. When the record found for the device's hostname already holds the resolved
  address, \<open>manageDNSRecord\<close> returns the \<open>no-change\<close> action and has issued the lookup
  by name and nothing else: no create, update or delete, and the zone is as it was. The
  hypothesis is on what the lookup returned, so the statement covers every world and
  every fate of the later calls.
\<close>

theorem unchanged_address_no_mutation:
  assumes "getDNSRecord (dnsName d e) e w = (Inr (Some ex), w1)"
    and "content ex = dev_ipv4 d"
  shows "manageDNSRecord d e w =
           (Inr \<lparr>action = ''no-change'', name = dnsName d e, ipv4 = dev_ipv4 d,
                 deleted_duplicate = None\<rparr>, w1)
         \<and> zone w1 = zone w \<and> next_id w1 = next_id w
         \<and> calls w1 = calls w @ [GetByName (dnsName d e)]"
  using assms
  by (auto simp: manageDNSRecord_def bind_io_def return_io_def getDNSRecord_eq)

theorem unchanged_address_no_mutation_witness:
  "getDNSRecord (dnsName dev_b demo_env) demo_env (demo_world [rec_b\<lparr>content := ''10.0.0.1''\<rparr>] [])
     = (Inr (Some (rec_b\<lparr>content := ''10.0.0.1''\<rparr>)),
        issue (GetByName ''b.example.com'') (demo_world [rec_b\<lparr>content := ''10.0.0.1''\<rparr>] []))
   \<and> content (rec_b\<lparr>content := ''10.0.0.1''\<rparr>) = dev_ipv4 dev_b
   \<and> manageDNSRecord dev_b demo_env (demo_world [rec_b\<lparr>content := ''10.0.0.1''\<rparr>] [])
     = (Inr \<lparr>action = ''no-change'', name = ''b.example.com'', ipv4 = ''10.0.0.1'',
             deleted_duplicate = None\<rparr>,
        issue (GetByName ''b.example.com'') (demo_world [rec_b\<lparr>content := ''10.0.0.1''\<rparr>] []))"
proof -
  let ?w = "demo_world [rec_b\<lparr>content := ''10.0.0.1''\<rparr>] []"
  have n: "dnsName dev_b demo_env = ''b.example.com''"
    by (simp add: demo_defs)
  have h1: "getDNSRecord (dnsName dev_b demo_env) demo_env ?w
     = (Inr (Some (rec_b\<lparr>content := ''10.0.0.1''\<rparr>)), issue (GetByName ''b.example.com'') ?w)"
    by (simp add: getDNSRecord_eq next_fault_def demo_defs)
  have h2: "content (rec_b\<lparr>content := ''10.0.0.1''\<rparr>) = dev_ipv4 dev_b"
    by (simp add: demo_defs)
  from unchanged_address_no_mutation [OF h1 h2] h1 h2 n show ?thesis
    by (simp add: dev_b_def)
qed


text \<open>
  Claim C4. Whenever the lookup by name returns a record with another address and the
  lookup by address returns a duplicate, the calls \<open>manageDNSRecord\<close> issues are, in
  this order: the two lookups, the delete of the duplicate, and then the update of the
  existing record; the update is missing exactly when the delete throws. So the delete
  is issued strictly before the update, and no update is issued before it.
\<close>

theorem delete_before_update:
  assumes "getDNSRecord (dnsName d e) e w = (Inr (Some ex), w1)"
    and "content ex \<noteq> dev_ipv4 d"
    and "findDuplicateDNSRecord (dev_ipv4 d) e w1 = (Inr (Some dup), w2)"
  shows "drop (length (calls w)) (calls (snd (manageDNSRecord d e w))) =
           [GetByName (dnsName d e), GetByContent (dev_ipv4 d), Delete (rec_id dup)]
           @ (if next_fault w2 = Throw then []
              else [Put (rec_id ex) (dnsName d e) (dev_ipv4 d)])"
  using assms
  by (auto simp: manageDNSRecord_def bind_io_def return_io_def
      getDNSRecord_eq findDuplicateDNSRecord_eq deleteDNSRecord_eq updateDNSRecord_eq)

theorem delete_before_update_witness:
  "getDNSRecord (dnsName dev_b demo_env) demo_env (demo_world [rec_a, rec_b] [])
     = (Inr (Some rec_b), issue (GetByName ''b.example.com'') (demo_world [rec_a, rec_b] []))
   \<and> content rec_b \<noteq> dev_ipv4 dev_b
   \<and> findDuplicateDNSRecord (dev_ipv4 dev_b) demo_env
        (issue (GetByName ''b.example.com'') (demo_world [rec_a, rec_b] []))
     = (Inr (Some rec_a),
        issue (GetByContent ''10.0.0.1'')
          (issue (GetByName ''b.example.com'') (demo_world [rec_a, rec_b] [])))
   \<and> calls (snd (manageDNSRecord dev_b demo_env (demo_world [rec_a, rec_b] [])))
     = [GetByName ''b.example.com'', GetByContent ''10.0.0.1'', Delete 1,
        Put 2 ''b.example.com'' ''10.0.0.1'']"
proof -
  let ?w = "demo_world [rec_a, rec_b] []"
  let ?w1 = "issue (GetByName ''b.example.com'') ?w"
  let ?w2 = "issue (GetByContent ''10.0.0.1'') ?w1"
  have h1: "getDNSRecord (dnsName dev_b demo_env) demo_env ?w = (Inr (Some rec_b), ?w1)"
    by (simp add: getDNSRecord_eq next_fault_def demo_defs)
  have h2: "content rec_b \<noteq> dev_ipv4 dev_b"
    by (simp add: demo_defs)
  have h3: "findDuplicateDNSRecord (dev_ipv4 dev_b) demo_env ?w1 = (Inr (Some rec_a), ?w2)"
    by (simp add: findDuplicateDNSRecord_eq next_fault_def demo_defs)
  have c: "calls ?w = []" "next_fault ?w2 = NoFault"
    by (simp_all add: demo_world_def next_fault_def)
  from delete_before_update [OF h1 h2 h3] h1 h2 h3 c show ?thesis
    by (simp add: demo_defs)
qed

text \<open>
  Claim C5, as the code upholds it. In a zone with no record for the device's hostname,
  with the DNS calls served and a hostname that the API reads from the query as it was
  written, reconciling the device twice in a row (the second run starts in the world the
  first one left) gives \<open>created\<close> and then \<open>no-change\<close>; the second run issues the
  lookup by name only, and the hostname has exactly one record afterwards, the one the
  first run created.
\<close>

theorem reconcile_twice:
  assumes "served 3 w"
    and "records_named (dnsName d e) (zone w) = []"
    and "w1 = snd (manageDNSRecord d e w)"
    and "w2 = snd (manageDNSRecord d e w1)"
    and "query_value w (dnsName d e) = dnsName d e"
  shows "fst (manageDNSRecord d e w) =
           Inr \<lparr>action = ''created'', name = dnsName d e, ipv4 = dev_ipv4 d,
                 deleted_duplicate = None\<rparr>
       \<and> fst (manageDNSRecord d e w1) =
           Inr \<lparr>action = ''no-change'', name = dnsName d e, ipv4 = dev_ipv4 d,
                 deleted_duplicate = None\<rparr>
       \<and> calls w1 = calls w @ [GetByName (dnsName d e), Post (dnsName d e) (dev_ipv4 d)]
       \<and> calls w2 = calls w1 @ [GetByName (dnsName d e)]
       \<and> zone w2 = zone w1
       \<and> records_named (dnsName d e) (zone w2) =
           [\<lparr>rec_id = next_id w, rec_name = dnsName d e, content = dev_ipv4 d\<rparr>]"
proof -
  let ?n = "dnsName d e" and ?a = "dev_ipv4 d"
  let ?u = "issue (GetByName ?n) w"
  have f0: "next_fault w = NoFault" and s2: "served 2 ?u"
    using served_Suc [of 2 w] assms(1) by (simp_all add: eval_nat_numeral)
  have f1: "next_fault ?u = NoFault" and s1: "served 1 (issue (Post ?n ?a) ?u)"
    using served_Suc [of 1 ?u] s2 by (simp_all add: eval_nat_numeral)
  have f2: "next_fault (issue (Post ?n ?a) ?u) = NoFault"
    using served_Suc(1) [of 0 "issue (Post ?n ?a) ?u"] s1 by simp
  have nf: "find (\<lambda>r. rec_name r = query_value w ?n) (zone w) = None"
    using assms(2,5) by (simp add: find_filter records_named_def)
  have first: "manageDNSRecord d e w =
      (Inr \<lparr>action = ''created'', name = ?n, ipv4 = ?a, deleted_duplicate = None\<rparr>,
       store_apply (Post ?n ?a) (issue (Post ?n ?a) ?u))"
    by (simp add: manageDNSRecord_def bind_io_def return_io_def getDNSRecord_eq
        createDNSRecord_eq f0 f1 nf after_call_served)
  then have w1: "w1 = store_apply (Post ?n ?a) (issue (Post ?n ?a) ?u)"
    using assms(3) by simp
  have f2': "next_fault w1 = NoFault"
    using f2 by (simp add: w1)
  have named: "records_named ?n (zone w1) = [\<lparr>rec_id = next_id w, rec_name = ?n, content = ?a\<rparr>]"
    using assms(2) by (simp add: w1 records_named_def)
  have "query_value w1 ?n = ?n"
    using assms(5) by (simp add: w1)
  with named have fnd: "find (\<lambda>r. rec_name r = query_value w1 ?n) (zone w1)
      = Some \<lparr>rec_id = next_id w, rec_name = ?n, content = ?a\<rparr>"
    by (simp add: find_filter records_named_def)
  have second: "manageDNSRecord d e w1 =
      (Inr \<lparr>action = ''no-change'', name = ?n, ipv4 = ?a, deleted_duplicate = None\<rparr>,
       issue (GetByName ?n) w1)"
    by (simp add: manageDNSRecord_def bind_io_def return_io_def getDNSRecord_eq fnd f2')
  then have w2: "w2 = issue (GetByName ?n) w1"
    using assms(4) by simp
  show ?thesis
    using first second named by (simp add: w2) (simp add: w1)
qed


theorem reconcile_twice_witness:
  "served 3 (demo_world [rec_a] [])
   \<and> records_named ''b.example.com'' (zone (demo_world [rec_a] [])) = []
   \<and> query_value (demo_world [rec_a] []) ''b.example.com'' = ''b.example.com''
   \<and> fst (manageDNSRecord dev_b demo_env (demo_world [rec_a] [])) =
       Inr \<lparr>action = ''created'', name = ''b.example.com'', ipv4 = ''10.0.0.1'',
             deleted_duplicate = None\<rparr>
   \<and> fst (manageDNSRecord dev_b demo_env
             (snd (manageDNSRecord dev_b demo_env (demo_world [rec_a] [])))) =
       Inr \<lparr>action = ''no-change'', name = ''b.example.com'', ipv4 = ''10.0.0.1'',
             deleted_duplicate = None\<rparr>
   \<and> records_named ''b.example.com''
        (zone (snd (manageDNSRecord dev_b demo_env
                 (snd (manageDNSRecord dev_b demo_env (demo_world [rec_a] []))))))
      = [\<lparr>rec_id = 100, rec_name = ''b.example.com'', content = ''10.0.0.1''\<rparr>]"
proof -
  let ?w = "demo_world [rec_a] []"
  have n: "dnsName dev_b demo_env = ''b.example.com''" "dev_ipv4 dev_b = ''10.0.0.1''"
    "next_id ?w = 100"
    by (simp_all add: demo_defs)
  have h1: "served 3 ?w"
    by (simp add: served_def demo_world_def)
  have h2: "records_named (dnsName dev_b demo_env) (zone ?w) = []"
    by (simp add: records_named_def demo_defs)
  have h3: "query_value ?w (dnsName dev_b demo_env) = dnsName dev_b demo_env"
    by (simp add: n)
  note t = reconcile_twice [OF h1 h2 refl refl h3, unfolded n]
  from t h1 h2 [unfolded n] h3 [unfolded n] show ?thesis
    by blast
qed


text \<open>
  Claim C5 as stated fails. For the device name \<open>r#d\<close> the lookup asks for what stands
  before the \<^verbatim>\<open>#\<close>, finds nothing both times, and the two runs answer \<open>created\<close> twice
  and leave two records for the hostname. And when the create of the first run is
  answered with a response that reports failure, nothing is created, and the second run
  answers \<open>created\<close> again.
\<close>

theorem reconcile_twice_counterexample:
  "fst (manageDNSRecord dev_h demo_env (demo_world [] [])) =
     Inr \<lparr>action = ''created'', name = ''r#d.example.com'', ipv4 = ''10.0.0.1'',
           deleted_duplicate = None\<rparr>
   \<and> fst (manageDNSRecord dev_h demo_env
            (snd (manageDNSRecord dev_h demo_env (demo_world [] [])))) =
     Inr \<lparr>action = ''created'', name = ''r#d.example.com'', ipv4 = ''10.0.0.1'',
           deleted_duplicate = None\<rparr>
   \<and> records_named ''r#d.example.com''
        (zone (snd (manageDNSRecord dev_h demo_env
                 (snd (manageDNSRecord dev_h demo_env (demo_world [] [])))))) =
     [\<lparr>rec_id = 100, rec_name = ''r#d.example.com'', content = ''10.0.0.1''\<rparr>,
      \<lparr>rec_id = 101, rec_name = ''r#d.example.com'', content = ''10.0.0.1''\<rparr>]
   \<and> fst (manageDNSRecord dev_b demo_env (demo_world [] [NoFault, ApiFailure])) =
     Inr \<lparr>action = ''created'', name = ''b.example.com'', ipv4 = ''10.0.0.1'',
           deleted_duplicate = None\<rparr>
   \<and> fst (manageDNSRecord dev_b demo_env
            (snd (manageDNSRecord dev_b demo_env (demo_world [] [NoFault, ApiFailure])))) =
     Inr \<lparr>action = ''created'', name = ''b.example.com'', ipv4 = ''10.0.0.1'',
           deleted_duplicate = None\<rparr>"
  by (simp add: run_defs records_named_def demo_defs mangle_defs)

text \<open>
  Claim C3. In a zone (with distinct record identifiers, DNS calls served) where the
  record bound to 10.0.0.1 is the one of \<open>a.example.com\<close> and the record of
  \<open>b.example.com\<close> holds another address, reconciling the device \<open>b\<close> at 10.0.0.1
  returns the \<open>updated\<close> action with \<open>deleted_duplicate = a.example.com\<close>, after deleting
  the record of \<open>a.example.com\<close> and updating the one of \<open>b.example.com\<close> to 10.0.0.1;
  every other record is left as it was.
\<close>

theorem duplicate_resolution:
  assumes "served 4 w"
    and "distinct (map rec_id (zone w))"
    and "DOMAIN_SUFFIX e = ''example.com''"
    and "find (\<lambda>r. content r = ''10.0.0.1'') (zone w) = Some ra"
    and "rec_name ra = ''a.example.com''"
    and "find (\<lambda>r. rec_name r = ''b.example.com'') (zone w) = Some rb"
    and "content rb \<noteq> ''10.0.0.1''"
    and "w' = snd (manageDNSRecord \<lparr>dev_name = ''b'', dev_ipv4 = ''10.0.0.1''\<rparr> e w)"
  shows "fst (manageDNSRecord \<lparr>dev_name = ''b'', dev_ipv4 = ''10.0.0.1''\<rparr> e w) =
           Inr \<lparr>action = ''updated'', name = ''b.example.com'', ipv4 = ''10.0.0.1'',
                 deleted_duplicate = Some ''a.example.com''\<rparr>
       \<and> calls w' = calls w @ [GetByName ''b.example.com'', GetByContent ''10.0.0.1'',
                                 Delete (rec_id ra), Put (rec_id rb) ''b.example.com'' ''10.0.0.1'']
       \<and> set (zone w') = insert (rb\<lparr>content := ''10.0.0.1''\<rparr>) (set (zone w) - {ra, rb})
       \<and> ra \<notin> set (zone w')"
proof -
  let ?d = "\<lparr>dev_name = ''b'', dev_ipv4 = ''10.0.0.1''\<rparr>"
  let ?n = "''b.example.com''" and ?a = "''10.0.0.1''"
  let ?u1 = "issue (GetByName ?n) w"
  let ?u2 = "issue (GetByContent ?a) ?u1"
  let ?u3 = "store_apply (Delete (rec_id ra)) (issue (Delete (rec_id ra)) ?u2)"
  let ?u4 = "store_apply (Put (rec_id rb) ?n ?a) (issue (Put (rec_id rb) ?n ?a) ?u3)"
  have n: "dnsName ?d e = ?n"
    using assms(3) by (simp add: dnsName_def)
  note f = served_4 [OF assms(1)]
  have run: "manageDNSRecord ?d e w =
      (Inr \<lparr>action = ''updated'', name = ?n, ipv4 = ?a,
             deleted_duplicate = Some ''a.example.com''\<rparr>, ?u4)"
    using assms(4-7)
    by (simp add: manageDNSRecord_def n bind_io_def return_io_def getDNSRecord_eq
        findDuplicateDNSRecord_eq deleteDNSRecord_eq updateDNSRecord_eq after_call_served f)
  then have w': "w' = ?u4"
    using assms(8) by simp
  have ra: "ra \<in> set (zone w)" "content ra = ?a" and rb: "rb \<in> set (zone w)" "rec_name rb = ?n"
    using find_SomeD [OF assms(4)] find_SomeD [OF assms(6)] by simp_all
  have ne: "rec_id ra \<noteq> rec_id rb"
    using id_eq [OF assms(2) ra(1) rb(1)] ra(2) assms(7) by auto
  let ?z1 = "filter (\<lambda>r. rec_id r \<noteq> rec_id ra) (zone w)"
  have z1: "set ?z1 = set (zone w) - {ra}"
    using id_eq [OF assms(2) _ ra(1)] ra(1) by auto
  have d1: "distinct (map rec_id ?z1)"
    using assms(2) by (simp add: distinct_map_filter)
  have rb1: "rb \<in> set ?z1"
    using rb(1) ne by simp
  have zone': "zone w' =
      map (\<lambda>r. if rec_id r = rec_id rb then r\<lparr>rec_name := ?n, content := ?a\<rparr> else r) ?z1"
    by (simp add: w')
  have same: "rb\<lparr>rec_name := ?n, content := ?a\<rparr> = rb\<lparr>content := ?a\<rparr>"
    using rb(2) by simp
  have zs: "set (zone w') = insert (rb\<lparr>content := ?a\<rparr>) (set (zone w) - {ra, rb})"
    unfolding zone' put_member [OF d1 rb1, of "\<lambda>r. r\<lparr>rec_name := ?n, content := ?a\<rparr>"] z1 same
    by auto
  have "ra \<notin> set (zone w')"
  proof
    assume "ra \<in> set (zone w')"
    with zs have "ra = rb\<lparr>content := ?a\<rparr>" by auto
    then have "rec_id ra = rec_id (rb\<lparr>content := ?a\<rparr>)" by simp
    with ne show False by simp
  qed
  with run zs show ?thesis
    by (simp add: w')
qed


theorem duplicate_resolution_witness:
  "served 4 (demo_world [rec_a, rec_b] [])
   \<and> distinct (map rec_id (zone (demo_world [rec_a, rec_b] [])))
   \<and> DOMAIN_SUFFIX demo_env = ''example.com''
   \<and> find (\<lambda>r. content r = ''10.0.0.1'') (zone (demo_world [rec_a, rec_b] [])) = Some rec_a
   \<and> rec_name rec_a = ''a.example.com''
   \<and> find (\<lambda>r. rec_name r = ''b.example.com'') (zone (demo_world [rec_a, rec_b] [])) = Some rec_b
   \<and> content rec_b \<noteq> ''10.0.0.1''
   \<and> fst (manageDNSRecord \<lparr>dev_name = ''b'', dev_ipv4 = ''10.0.0.1''\<rparr> demo_env
             (demo_world [rec_a, rec_b] [])) =
         Inr \<lparr>action = ''updated'', name = ''b.example.com'', ipv4 = ''10.0.0.1'',
               deleted_duplicate = Some ''a.example.com''\<rparr>
   \<and> rec_a \<notin> set (zone (snd (manageDNSRecord \<lparr>dev_name = ''b'', dev_ipv4 = ''10.0.0.1''\<rparr>
                                 demo_env (demo_world [rec_a, rec_b] []))))"
proof -
  let ?w = "demo_world [rec_a, rec_b] []"
  have h1: "served 4 ?w"
    by (simp add: served_def demo_world_def)
  have h2: "distinct (map rec_id (zone ?w))"
    by (simp add: demo_defs)
  have h3: "DOMAIN_SUFFIX demo_env = ''example.com''"
    by (simp add: demo_defs)
  have h4: "find (\<lambda>r. content r = ''10.0.0.1'') (zone ?w) = Some rec_a"
    by (simp add: demo_defs)
  have h5: "rec_name rec_a = ''a.example.com''"
    by (simp add: demo_defs)
  have h6: "find (\<lambda>r. rec_name r = ''b.example.com'') (zone ?w) = Some rec_b"
    by (simp add: demo_defs)
  have h7: "content rec_b \<noteq> ''10.0.0.1''"
    by (simp add: demo_defs)
  from duplicate_resolution [OF h1 h2 h3 h4 h5 h6 h7 refl] h1 h2 h3 h4 h5 h6 h7
  show ?thesis
    by blast
qed



section \<open>The invariant of the zone\<close>

text \<open>
  Claim C1, as the code upholds it. Take a zone in steady state: record identifiers are
  distinct, the device's hostname has at most one record and at most one record is bound
  to the resolved address; the DNS calls are served, and the API reads the hostname and
  the address from the query as they were written. Then \<open>manageDNSRecord\<close> returns an
  action, afterwards the hostname resolves to exactly one record, bound to the resolved
  address, and, when the hostname had a record before the call, no record of another
  hostname is bound to that address. For a hostname that had no record the theorem says
  nothing about other holders of the address.
\<close>

theorem steady_state_reconcile:
  assumes s: "served 4 w"
    and d: "distinct (map rec_id (zone w))"
    and one_name: "length (records_named (dnsName d e) (zone w)) \<le> 1"
    and one_addr: "length (records_bound (dev_ipv4 d) (zone w)) \<le> 1"
    and w': "w' = snd (manageDNSRecord d e w)"
    and qn: "query_value w (dnsName d e) = dnsName d e"
    and qa: "query_value w (dev_ipv4 d) = dev_ipv4 d"
  shows "fst (manageDNSRecord d e w) \<noteq> Inl Thrown
       \<and> map content (records_named (dnsName d e) (zone w')) = [dev_ipv4 d]
       \<and> (records_named (dnsName d e) (zone w) \<noteq> [] \<longrightarrow>
            other_holders (dnsName d e) (dev_ipv4 d) (zone w') = [])"
proof -
  let ?n = "dnsName d e" and ?a = "dev_ipv4 d"
  let ?z = "zone w"
  note f = served_4 [OF s]
  note run = manageDNSRecord_def bind_io_def return_io_def getDNSRecord_eq
    findDuplicateDNSRecord_eq createDNSRecord_eq deleteDNSRecord_eq updateDNSRecord_eq
    after_call_served f qn qa
  show ?thesis
  proof (cases "find (\<lambda>r. rec_name r = ?n) ?z")
    case None
    then have "records_named ?n ?z = []"
      by (cases "records_named ?n ?z") (simp_all add: find_filter records_named_def)
    with None show ?thesis
      by (simp add: w' run records_named_def)
  next
    case (Some ex)
    then have named: "records_named ?n ?z = [ex]"
      using find_single [of "\<lambda>r. rec_name r = ?n" ?z ex] one_name
      by (simp add: records_named_def)
    have ex: "ex \<in> set ?z" "rec_name ex = ?n"
      using find_SomeD [OF Some] by simp_all
    show ?thesis
    proof (cases "content ex = ?a")
      case True
      have "\<And>r. r \<in> set ?z \<Longrightarrow> content r = ?a \<Longrightarrow> rec_name r = ?n"
        using at_most_one [of "\<lambda>r. content r = ?a" ?z ex] one_addr ex True
        by (auto simp: records_bound_def)
      then have "other_holders ?n ?a ?z = []"
        by (auto simp: other_holders_def filter_empty_conv)
      with Some True named show ?thesis
        by (simp add: w' run)
    next
      case False
      show ?thesis
      proof (cases "find (\<lambda>r. content r = ?a) ?z")
        case None
        then have free: "records_bound ?a ?z = []"
          by (cases "records_bound ?a ?z") (simp_all add: find_filter records_bound_def)
        have zone': "zone w' =
            map (\<lambda>r. if rec_id r = rec_id ex then r\<lparr>rec_name := ?n, content := ?a\<rparr> else r) ?z"
          using Some False None by (simp add: w' run)
        have ok: "fst (manageDNSRecord d e w) \<noteq> Inl Thrown"
          using Some False None by (simp add: run)
        from put_steady [OF d named free zone'] ok named show ?thesis
          by simp
      next
        case (Some dup)
        then have bound: "records_bound ?a ?z = [dup]"
          using find_single [of "\<lambda>r. content r = ?a" ?z dup] one_addr
          by (simp add: records_bound_def)
        have dup: "dup \<in> set ?z" "content dup = ?a"
          using find_SomeD [OF Some] by simp_all
        have ne: "rec_id ex \<noteq> rec_id dup"
          using id_eq [OF d ex(1) dup(1)] dup(2) False by auto
        let ?zd = "filter (\<lambda>r. rec_id r \<noteq> rec_id dup) ?z"
        have d0: "distinct (map rec_id ?zd)"
          using d by (simp add: distinct_map_filter)
        have "records_named ?n ?zd = filter (\<lambda>r. rec_id r \<noteq> rec_id dup) (records_named ?n ?z)"
          by (simp add: records_named_def conj_commute)
        then have named0: "records_named ?n ?zd = [ex]"
          using named ne by simp
        have "records_bound ?a ?zd = filter (\<lambda>r. rec_id r \<noteq> rec_id dup) (records_bound ?a ?z)"
          by (simp add: records_bound_def conj_commute)
        then have free0: "records_bound ?a ?zd = []"
          using bound by simp
        have zone': "zone w' =
            map (\<lambda>r. if rec_id r = rec_id ex then r\<lparr>rec_name := ?n, content := ?a\<rparr> else r) ?zd"
          using \<open>find (\<lambda>r. rec_name r = ?n) ?z = Some ex\<close> False Some by (simp add: w' run)
        have ok: "fst (manageDNSRecord d e w) \<noteq> Inl Thrown"
          using \<open>find (\<lambda>r. rec_name r = ?n) ?z = Some ex\<close> False Some by (simp add: run)
        from put_steady [OF d0 named0 free0 zone'] ok named show ?thesis
          by simp
      qed
    qed
  qed
qed


theorem steady_state_reconcile_witness:
  "served 4 (demo_world [rec_a, rec_b] [])
   \<and> distinct (map rec_id (zone (demo_world [rec_a, rec_b] [])))
   \<and> length (records_named (dnsName dev_b demo_env) (zone (demo_world [rec_a, rec_b] []))) \<le> 1
   \<and> length (records_bound (dev_ipv4 dev_b) (zone (demo_world [rec_a, rec_b] []))) \<le> 1
   \<and> records_named (dnsName dev_b demo_env) (zone (demo_world [rec_a, rec_b] [])) \<noteq> []
   \<and> query_value (demo_world [rec_a, rec_b] []) (dnsName dev_b demo_env) = dnsName dev_b demo_env
   \<and> query_value (demo_world [rec_a, rec_b] []) (dev_ipv4 dev_b) = dev_ipv4 dev_b
   \<and> map content (records_named (dnsName dev_b demo_env)
         (zone (snd (manageDNSRecord dev_b demo_env (demo_world [rec_a, rec_b] [])))))
       = [dev_ipv4 dev_b]
   \<and> other_holders (dnsName dev_b demo_env) (dev_ipv4 dev_b)
         (zone (snd (manageDNSRecord dev_b demo_env (demo_world [rec_a, rec_b] [])))) = []"
proof -
  let ?w = "demo_world [rec_a, rec_b] []"
  have h1: "served 4 ?w"
    by (simp add: served_def demo_world_def)
  have h2: "distinct (map rec_id (zone ?w))"
    by (simp add: demo_defs)
  have h3: "length (records_named (dnsName dev_b demo_env) (zone ?w)) \<le> 1"
    by (simp add: records_named_def demo_defs)
  have h4: "length (records_bound (dev_ipv4 dev_b) (zone ?w)) \<le> 1"
    by (simp add: records_bound_def demo_defs)
  have h5: "records_named (dnsName dev_b demo_env) (zone ?w) \<noteq> []"
    by (simp add: records_named_def demo_defs)
  have h6: "query_value ?w (dnsName dev_b demo_env) = dnsName dev_b demo_env"
    "query_value ?w (dev_ipv4 dev_b) = dev_ipv4 dev_b"
    by (simp_all add: demo_defs)
  from steady_state_reconcile [OF h1 h2 h3 h4 refl h6] h1 h2 h3 h4 h5 h6 show ?thesis
    by blast
qed


text \<open>
  Claim C1 as stated fails where it names the created case: with \<open>a.example.com\<close> at
  10.0.0.1 and no record for \<open>b.example.com\<close>, reconciling \<open>b\<close> at 10.0.0.1 creates the
  record and asks nothing about the address, so \<open>a.example.com\<close> still holds it. It
  also fails outside the steady state: with \<open>a.example.com\<close> and \<open>c.example.com\<close> both
  at 10.0.0.1, updating \<open>b.example.com\<close> deletes the first of the two only. And for the
  device name \<open>r#d\<close> the lookup asks for what stands before the \<^verbatim>\<open>#\<close>, misses the record
  the hostname has, and a second one is created.
\<close>

theorem reconcile_invariant_counterexample:
  "fst (manageDNSRecord dev_b demo_env (demo_world [rec_a] [])) =
     Inr \<lparr>action = ''created'', name = ''b.example.com'', ipv4 = ''10.0.0.1'',
           deleted_duplicate = None\<rparr>
   \<and> zone (snd (manageDNSRecord dev_b demo_env (demo_world [rec_a] []))) =
       [rec_a, \<lparr>rec_id = 100, rec_name = ''b.example.com'', content = ''10.0.0.1''\<rparr>]
   \<and> other_holders ''b.example.com'' ''10.0.0.1''
       (zone (snd (manageDNSRecord dev_b demo_env (demo_world [rec_a] [])))) = [rec_a]
   \<and> fst (manageDNSRecord dev_b demo_env (demo_world [rec_a, rec_c, rec_b] [])) =
     Inr \<lparr>action = ''updated'', name = ''b.example.com'', ipv4 = ''10.0.0.1'',
           deleted_duplicate = Some ''a.example.com''\<rparr>
   \<and> other_holders ''b.example.com'' ''10.0.0.1''
       (zone (snd (manageDNSRecord dev_b demo_env (demo_world [rec_a, rec_c, rec_b] [])))) = [rec_c]
   \<and> fst (manageDNSRecord dev_h demo_env (demo_world [rec_h] [])) =
     Inr \<lparr>action = ''created'', name = ''r#d.example.com'', ipv4 = ''10.0.0.1'',
           deleted_duplicate = None\<rparr>
   \<and> records_named ''r#d.example.com''
       (zone (snd (manageDNSRecord dev_h demo_env (demo_world [rec_h] [])))) =
       [rec_h, \<lparr>rec_id = 100, rec_name = ''r#d.example.com'', content = ''10.0.0.1''\<rparr>]"
  by (simp add: run_defs other_holders_def records_named_def demo_defs mangle_defs)

section \<open>The batch\<close>

subsection \<open>The loop over the devices\<close>

lemma getDeviceDetails_eq:
  "getDeviceDetails i e w =
     (Inr (case directory w i of Dir_throws \<Rightarrow> None
           | Dir_data success result \<Rightarrow> if success then result else None), w)"
  by (simp add: getDeviceDetails_def catch_io_def bind_io_def warp_fetch_def return_io_def
      split: dir_reply.splits)

text \<open>The guard of the loop lets through exactly the devices the directory has an
  address for, and passes that address on.\<close>

lemma guard_lookupDevice:
  assumes "getDeviceDetails i e w = (Inr dd, w')"
  shows "no_ipv4 dd \<longleftrightarrow> lookupDevice (directory w i) = None"
    and "lookupDevice (directory w i) = Some a \<Longrightarrow> the (md_ipv4 (the (metadata (the dd)))) = a"
  using assms
  by (auto simp: getDeviceDetails_eq no_ipv4_def split: dir_reply.splits option.splits if_splits)

lemma process_devices_Cons:
  "process_devices e ((i, nm) # ds) acts w =
     (case lookupDevice (directory w i) of
        None \<Rightarrow> process_devices e ds acts w
      | Some a \<Rightarrow>
          bind_io (manageDNSRecord \<lparr>dev_name = nm, dev_ipv4 = a\<rparr> e)
            (\<lambda>act. process_devices e ds (acts @ [act])) w)"
proof -
  obtain dd where g: "getDeviceDetails i e w = (Inr dd, w)"
    by (simp add: getDeviceDetails_eq)
  show ?thesis
  proof (cases "lookupDevice (directory w i)")
    case None
    with guard_lookupDevice(1) [OF g] have "no_ipv4 dd" by simp
    with None g show ?thesis
      by (simp add: bind_io_def process_devices.simps(2))
  next
    case (Some a)
    with guard_lookupDevice [OF g] have "\<not> no_ipv4 dd" "the (md_ipv4 (the (metadata (the dd)))) = a"
      by simp_all
    with Some g show ?thesis
      by (simp add: bind_io_def process_devices.simps(2))
  qed
qed

declare process_devices.simps(2) [simp del]


lemma log_grows:
  "process_devices e ds acts w = (Inr log, w') \<Longrightarrow> take (length acts) log = acts"
proof (induction ds arbitrary: acts w)
  case Nil
  then show ?case by (simp add: return_io_def)
next
  case (Cons x ds)
  obtain i nm where x: "x = (i, nm)" by (cases x)
  show ?case
  proof (cases "lookupDevice (directory w i)")
    case None
    with Cons show ?thesis by (simp add: x process_devices_Cons)
  next
    case (Some a)
    with Cons.prems obtain act w1 where
      "process_devices e ds (acts @ [act]) w1 = (Inr log, w')"
      by (auto simp: x process_devices_Cons bind_io_def split: prod.splits sum.splits)
    from Cons.IH [OF this] have "take (length acts + 1) log = acts @ [act]" by simp
    then have "take (length acts) (take (length acts + 1) log) = acts" by simp
    then show ?thesis by (simp add: min_def)
  qed
qed

lemma after_call_failed: "next_fault w = ApiFailure \<Longrightarrow> after_call c w = issue c w"
  by (simp add: after_call_def)

lemmas batch_defs = fetch_handler_def handle_batch_def process_devices_Cons call_eqs
  after_call_def next_fault_def demo_directory_def


text \<open>
  Claim C8. \<open>getDeviceDetails\<close> never raises and touches nothing: it returns a value in
  the world it was called in. A device for which the directory has no address (the
  request throws, the response reports no success, or the result, its metadata or its
  address is missing or empty) is passed over: the loop continues with the remaining
  devices from the same action log and the same world, so the device adds no action and
  no DNS call.
\<close>

theorem unresolved_device_excluded:
  "fst (getDeviceDetails i e w) \<noteq> Inl Thrown
   \<and> snd (getDeviceDetails i e w) = w
   \<and> (lookupDevice (directory w i) = None \<longrightarrow>
        process_devices e ((i, nm) # ds) acts w = process_devices e ds acts w)"
  by (simp add: getDeviceDetails_eq process_devices_Cons)

theorem unresolved_device_excluded_witness:
  "lookupDevice (directory (demo_world [] []) ''dev-9'') = None
   \<and> process_devices demo_env [(''dev-9'', ''x''), (''dev-1'', ''b'')] [] (demo_world [] []) =
       process_devices demo_env [(''dev-1'', ''b'')] [] (demo_world [] [])
   \<and> fst (process_devices demo_env [(''dev-1'', ''b'')] [] (demo_world [] [])) =
       Inr [\<lparr>action = ''created'', name = ''b.example.com'', ipv4 = ''10.0.0.1'',
              deleted_duplicate = None\<rparr>]"
proof -
  let ?w = "demo_world [] []"
  have h: "lookupDevice (directory ?w ''dev-9'') = None"
    by (simp add: demo_world_def demo_directory_def)
  have r: "fst (process_devices demo_env [(''dev-1'', ''b'')] [] ?w) =
       Inr [\<lparr>action = ''created'', name = ''b.example.com'', ipv4 = ''10.0.0.1'',
              deleted_duplicate = None\<rparr>]"
    by (simp add: batch_defs demo_defs)
  from unresolved_device_excluded [of "''dev-9''" demo_env ?w "''x''" "[(''dev-1'', ''b'')]" "[]"] h r
  show ?thesis
    by simp
qed

text \<open>
  Claim C10. For a device the directory resolves, in each of the three branches that
  mutate the zone: when every mutation is answered with a response that reports failure,
  the zone is as it was, and still \<open>manageDNSRecord\<close> returns \<open>created\<close> or \<open>updated\<close> (with
  the name of the duplicate it did not delete), and the loop goes on with that action
  appended to the log. Whatever was appended stays: the log a completed loop returns
  begins with the actions it was started with.
\<close>

theorem failed_mutation_still_reported:
  assumes "lookupDevice (directory w i) = Some a"
    and "d = \<lparr>dev_name = nm, dev_ipv4 = a\<rparr>"
    and "n = dnsName d e"
  shows "(getDNSRecord n e w = (Inr None, w1) \<and> next_fault w1 = ApiFailure \<longrightarrow>
            zone (issue (Post n a) w1) = zone w
          \<and> manageDNSRecord d e w =
              (Inr \<lparr>action = ''created'', name = n, ipv4 = a, deleted_duplicate = None\<rparr>,
               issue (Post n a) w1)
          \<and> process_devices e ((i, nm) # ds) acts w =
              process_devices e ds
                (acts @ [\<lparr>action = ''created'', name = n, ipv4 = a, deleted_duplicate = None\<rparr>])
                (issue (Post n a) w1))
       \<and> (getDNSRecord n e w = (Inr (Some ex), w1) \<and> content ex \<noteq> a
          \<and> findDuplicateDNSRecord a e w1 = (Inr None, w2) \<and> next_fault w2 = ApiFailure \<longrightarrow>
            zone (issue (Put (rec_id ex) n a) w2) = zone w
          \<and> manageDNSRecord d e w =
              (Inr \<lparr>action = ''updated'', name = n, ipv4 = a, deleted_duplicate = None\<rparr>,
               issue (Put (rec_id ex) n a) w2)
          \<and> process_devices e ((i, nm) # ds) acts w =
              process_devices e ds
                (acts @ [\<lparr>action = ''updated'', name = n, ipv4 = a, deleted_duplicate = None\<rparr>])
                (issue (Put (rec_id ex) n a) w2))
       \<and> (getDNSRecord n e w = (Inr (Some ex), w1) \<and> content ex \<noteq> a
          \<and> findDuplicateDNSRecord a e w1 = (Inr (Some dup), w2) \<and> next_fault w2 = ApiFailure
          \<and> next_fault (issue (Delete (rec_id dup)) w2) = ApiFailure \<longrightarrow>
            zone (issue (Put (rec_id ex) n a) (issue (Delete (rec_id dup)) w2)) = zone w
          \<and> manageDNSRecord d e w =
              (Inr \<lparr>action = ''updated'', name = n, ipv4 = a,
                     deleted_duplicate = Some (rec_name dup)\<rparr>,
               issue (Put (rec_id ex) n a) (issue (Delete (rec_id dup)) w2))
          \<and> process_devices e ((i, nm) # ds) acts w =
              process_devices e ds
                (acts @ [\<lparr>action = ''updated'', name = n, ipv4 = a,
                           deleted_duplicate = Some (rec_name dup)\<rparr>])
                (issue (Put (rec_id ex) n a) (issue (Delete (rec_id dup)) w2)))
       \<and> (process_devices e ds acts' w' = (Inr log, w'') \<longrightarrow> take (length acts') log = acts')"
proof -
  have da: "dev_ipv4 d = a" "dnsName d e = n"
    using assms(2,3) by simp_all
  have step: "\<And>act u. manageDNSRecord d e w = (Inr act, u) \<Longrightarrow>
      process_devices e ((i, nm) # ds) acts w = process_devices e ds (acts @ [act]) u"
    using assms(1,2) by (simp add: process_devices_Cons bind_io_def)
  have created: "zone (issue (Post n a) w1) = zone w
      \<and> manageDNSRecord d e w =
          (Inr \<lparr>action = ''created'', name = n, ipv4 = a, deleted_duplicate = None\<rparr>,
           issue (Post n a) w1)"
    if "getDNSRecord n e w = (Inr None, w1)" "next_fault w1 = ApiFailure"
    using that by (auto simp: call_eqs da after_call_failed)
  have updated: "zone (issue (Put (rec_id ex) n a) w2) = zone w
      \<and> manageDNSRecord d e w =
          (Inr \<lparr>action = ''updated'', name = n, ipv4 = a, deleted_duplicate = None\<rparr>,
           issue (Put (rec_id ex) n a) w2)"
    if "getDNSRecord n e w = (Inr (Some ex), w1)" "content ex \<noteq> a"
      "findDuplicateDNSRecord a e w1 = (Inr None, w2)" "next_fault w2 = ApiFailure"
    using that by (auto simp: call_eqs da after_call_failed)
  have replaced: "zone (issue (Put (rec_id ex) n a) (issue (Delete (rec_id dup)) w2)) = zone w
      \<and> manageDNSRecord d e w =
          (Inr \<lparr>action = ''updated'', name = n, ipv4 = a,
                 deleted_duplicate = Some (rec_name dup)\<rparr>,
           issue (Put (rec_id ex) n a) (issue (Delete (rec_id dup)) w2))"
    if "getDNSRecord n e w = (Inr (Some ex), w1)" "content ex \<noteq> a"
      "findDuplicateDNSRecord a e w1 = (Inr (Some dup), w2)" "next_fault w2 = ApiFailure"
      "next_fault (issue (Delete (rec_id dup)) w2) = ApiFailure"
    using that by (auto simp: call_eqs da after_call_failed)
  show ?thesis
    using created updated replaced step log_grows [of e ds acts' w' log w'']
    by (intro conjI impI; (elim conjE)?) simp_all
qed

theorem failed_mutation_still_reported_witness:
  "lookupDevice (directory (demo_world [] [NoFault, ApiFailure]) ''dev-1'') = Some ''10.0.0.1''
   \<and> getDNSRecord ''b.example.com'' demo_env (demo_world [] [NoFault, ApiFailure]) =
       (Inr None, issue (GetByName ''b.example.com'') (demo_world [] [NoFault, ApiFailure]))
   \<and> next_fault (issue (GetByName ''b.example.com'') (demo_world [] [NoFault, ApiFailure]))
       = ApiFailure
   \<and> process_devices demo_env [(''dev-1'', ''b'')] [] (demo_world [] [NoFault, ApiFailure]) =
       (Inr [\<lparr>action = ''created'', name = ''b.example.com'', ipv4 = ''10.0.0.1'',
              deleted_duplicate = None\<rparr>],
        issue (Post ''b.example.com'' ''10.0.0.1'')
          (issue (GetByName ''b.example.com'') (demo_world [] [NoFault, ApiFailure])))
   \<and> zone (issue (Post ''b.example.com'' ''10.0.0.1'')
          (issue (GetByName ''b.example.com'') (demo_world [] [NoFault, ApiFailure]))) = []
   \<and> getDNSRecord ''b.example.com'' demo_env
        (demo_world [rec_a, rec_b] [NoFault, NoFault, ApiFailure, ApiFailure]) =
       (Inr (Some rec_b), issue (GetByName ''b.example.com'')
          (demo_world [rec_a, rec_b] [NoFault, NoFault, ApiFailure, ApiFailure]))
   \<and> content rec_b \<noteq> ''10.0.0.1''
   \<and> findDuplicateDNSRecord ''10.0.0.1'' demo_env
        (issue (GetByName ''b.example.com'')
          (demo_world [rec_a, rec_b] [NoFault, NoFault, ApiFailure, ApiFailure])) =
       (Inr (Some rec_a), issue (GetByContent ''10.0.0.1'') (issue (GetByName ''b.example.com'')
          (demo_world [rec_a, rec_b] [NoFault, NoFault, ApiFailure, ApiFailure])))
   \<and> fst (manageDNSRecord \<lparr>dev_name = ''b'', dev_ipv4 = ''10.0.0.1''\<rparr> demo_env
          (demo_world [rec_a, rec_b] [NoFault, NoFault, ApiFailure, ApiFailure])) =
       Inr \<lparr>action = ''updated'', name = ''b.example.com'', ipv4 = ''10.0.0.1'',
             deleted_duplicate = Some ''a.example.com''\<rparr>
   \<and> zone (snd (manageDNSRecord \<lparr>dev_name = ''b'', dev_ipv4 = ''10.0.0.1''\<rparr> demo_env
          (demo_world [rec_a, rec_b] [NoFault, NoFault, ApiFailure, ApiFailure]))) = [rec_a, rec_b]"
proof -
  let ?w = "demo_world [] [NoFault, ApiFailure]"
  let ?w1 = "issue (GetByName ''b.example.com'') ?w"
  let ?v = "demo_world [rec_a, rec_b] [NoFault, NoFault, ApiFailure, ApiFailure]"
  let ?v1 = "issue (GetByName ''b.example.com'') ?v"
  let ?v2 = "issue (GetByContent ''10.0.0.1'') ?v1"
  let ?d = "\<lparr>dev_name = ''b'', dev_ipv4 = ''10.0.0.1''\<rparr>"
  have h1: "lookupDevice (directory ?w ''dev-1'') = Some ''10.0.0.1''"
    by (simp add: demo_world_def demo_directory_def)
  have h2: "''b.example.com'' = dnsName ?d demo_env"
    by (simp add: demo_defs)
  have h3: "getDNSRecord ''b.example.com'' demo_env ?w = (Inr None, ?w1)"
    by (simp add: getDNSRecord_eq next_fault_def demo_defs)
  have h4: "next_fault ?w1 = ApiFailure"
    by (simp add: next_fault_def demo_world_def)
  have z: "zone ?w = []"
    by (simp add: demo_world_def)
  from failed_mutation_still_reported [OF h1 refl h2, of ?w1 "[]" "[]"] h3 h4
  have first: "process_devices demo_env [(''dev-1'', ''b'')] [] ?w =
      process_devices demo_env []
        [\<lparr>action = ''created'', name = ''b.example.com'', ipv4 = ''10.0.0.1'',
           deleted_duplicate = None\<rparr>]
        (issue (Post ''b.example.com'' ''10.0.0.1'') ?w1)"
    by simp
  have k1: "lookupDevice (directory ?v ''dev-1'') = Some ''10.0.0.1''"
    by (simp add: demo_world_def demo_directory_def)
  have k3: "getDNSRecord ''b.example.com'' demo_env ?v = (Inr (Some rec_b), ?v1)"
    by (simp add: getDNSRecord_eq next_fault_def demo_defs)
  have k4: "content rec_b \<noteq> ''10.0.0.1''"
    by (simp add: rec_b_def)
  have k5: "findDuplicateDNSRecord ''10.0.0.1'' demo_env ?v1 = (Inr (Some rec_a), ?v2)"
    by (simp add: findDuplicateDNSRecord_eq next_fault_def demo_defs)
  have k6: "next_fault ?v2 = ApiFailure" "next_fault (issue (Delete (rec_id rec_a)) ?v2) = ApiFailure"
    by (simp_all add: next_fault_def demo_world_def)
  have zv: "zone ?v = [rec_a, rec_b]" "rec_name rec_a = ''a.example.com''"
    by (simp_all add: demo_world_def rec_a_def)
  from failed_mutation_still_reported [OF k1 refl h2,
      where ?w1.0 = ?v1 and ?w2.0 = ?v2 and ex = rec_b and dup = rec_a] k3 k4 k5 k6
  have third: "zone (issue (Put (rec_id rec_b) ''b.example.com'' ''10.0.0.1'')
                  (issue (Delete (rec_id rec_a)) ?v2)) = zone ?v
      \<and> manageDNSRecord ?d demo_env ?v =
          (Inr \<lparr>action = ''updated'', name = ''b.example.com'', ipv4 = ''10.0.0.1'',
                 deleted_duplicate = Some (rec_name rec_a)\<rparr>,
           issue (Put (rec_id rec_b) ''b.example.com'' ''10.0.0.1'')
             (issue (Delete (rec_id rec_a)) ?v2))"
    by simp
  from first third h1 h3 h4 z k3 k4 k5 zv show ?thesis
    by (simp add: return_io_def)
qed




subsection \<open>One name per device identifier\<close>

lemma map_of_map_set: "map_of (map_set m k v) = (map_of m)(k \<mapsto> v)"
  by (induction m) (auto simp: fun_upd_twist)

lemma keys_map_set: "set (map fst (map_set m k v)) = insert k (set (map fst m))"
proof (induction m)
  case Nil
  show ?case by simp
next
  case (Cons p m)
  obtain k' v' where p: "p = (k', v')" by (cases p)
  show ?case
  proof (cases "k' = k")
    case True
    then show ?thesis by (simp add: p)
  next
    case False
    with Cons.IH show ?thesis by (simp add: p insert_commute)
  qed
qed

lemma distinct_map_set: "distinct (map fst m) \<Longrightarrow> distinct (map fst (map_set m k v))"
proof (induction m)
  case Nil
  show ?case by simp
next
  case (Cons p m)
  obtain k' v' where p: "p = (k', v')" by (cases p)
  from Cons show ?case
    using keys_map_set [of m k v] by (auto simp: p)
qed

lemma uniqueDevices_last_name:
  "uniqueDevices es m = Inr devs \<Longrightarrow> distinct (map fst m) \<Longrightarrow>
   distinct (map fst devs)
   \<and> map_of devs i = (case last_name i es of Some n \<Rightarrow> Some n | None \<Rightarrow> map_of m i)"
proof (induction es arbitrary: m)
  case Nil
  then show ?case by simp
next
  case (Cons line es)
  show ?case
  proof (cases line)
    case Null_line
    with Cons.prems show ?thesis by simp
  next
    case (Entry DeviceID DeviceName)
    show ?thesis
    proof (cases "truthy DeviceID \<and> truthy DeviceName")
      case True
      then obtain k v where kv: "DeviceID = Some k" "DeviceName = Some v" "k \<noteq> []" "v \<noteq> []"
        by (cases DeviceID; cases DeviceName) auto
      from Cons.prems(1) have "uniqueDevices es (map_set m k v) = Inr devs"
        by (simp add: Entry kv)
      from Cons.IH [OF this distinct_map_set [OF Cons.prems(2)]]
      show ?thesis
        by (auto simp: Entry kv map_of_map_set split: option.splits)
    next
      case False
      with Cons.prems(1) have "uniqueDevices es m = Inr devs"
        by (simp add: Entry)
      from Cons.IH [OF this Cons.prems(2)] False
      show ?thesis
        by (cases DeviceName) (auto simp: Entry split: option.splits)
    qed
  qed
qed

lemma uniqueDevices_no_null:
  "Null_line \<notin> set es \<Longrightarrow> uniqueDevices es m \<noteq> Inl Thrown"
proof (induction es arbitrary: m)
  case Nil
  show ?case by simp
next
  case (Cons line es)
  then show ?case by (cases line) auto
qed

lemma uniqueDevices_null:
  "Null_line \<in> set es \<Longrightarrow> uniqueDevices es m = Inl Thrown"
proof (induction es arbitrary: m)
  case Nil
  then show ?case by simp
next
  case (Cons line es)
  then show ?case by (cases line) auto
qed

text \<open>
  Claim C6. \<open>uniqueDevices\<close> raises no error on a batch without a \<open>null\<close> line, whatever
  names repeat. The work list it returns has each device identifier at most once, and it
  pairs an identifier with a name exactly when that name is the one of the identifier's
  last occurrence in the batch (among the lines with both fields present); every earlier
  name of the identifier is gone.
\<close>

theorem last_name_wins:
  "(Null_line \<notin> set entries \<longrightarrow> uniqueDevices entries [] \<noteq> Inl Thrown)
   \<and> (uniqueDevices entries [] = Inr devices \<longrightarrow>
        distinct (map fst devices)
        \<and> (\<forall>i n. (i, n) \<in> set devices \<longleftrightarrow> last_name i entries = Some n))"
proof -
  have "distinct (map fst devices) \<and> (\<forall>i n. (i, n) \<in> set devices \<longleftrightarrow> last_name i entries = Some n)"
    if u: "uniqueDevices entries [] = Inr devices"
  proof -
    have d: "distinct (map fst devices)"
      and m: "\<And>i. map_of devices i = last_name i entries"
      using uniqueDevices_last_name [OF u] by (simp_all split: option.splits)
    have "\<And>i n. (i, n) \<in> set devices \<longleftrightarrow> last_name i entries = Some n"
      using map_of_eq_Some_iff [OF d] m by simp
    with d show ?thesis by simp
  qed
  then show ?thesis
    using uniqueDevices_no_null [of entries "[]"] by blast
qed

theorem last_name_wins_witness:
  "Null_line \<notin> set [Entry (Some ''dev-1'') (Some ''old''), Entry (Some ''dev-2'') (Some ''b''),
                     Entry (Some ''dev-1'') (Some ''new'')]
   \<and> uniqueDevices [Entry (Some ''dev-1'') (Some ''old''), Entry (Some ''dev-2'') (Some ''b''),
                    Entry (Some ''dev-1'') (Some ''new'')] []
       = Inr [(''dev-1'', ''new''), (''dev-2'', ''b'')]
   \<and> distinct (map fst [(''dev-1'', ''new''), (''dev-2'', ''b'')])
   \<and> last_name ''dev-1'' [Entry (Some ''dev-1'') (Some ''old''), Entry (Some ''dev-2'') (Some ''b''),
                    Entry (Some ''dev-1'') (Some ''new'')] = Some ''new''
   \<and> (''dev-1'', ''old'') \<notin> set [(''dev-1'', ''new''), (''dev-2'', ''b'')]"
proof -
  let ?es = "[Entry (Some ''dev-1'') (Some ''old''), Entry (Some ''dev-2'') (Some ''b''),
              Entry (Some ''dev-1'') (Some ''new'')]"
  let ?ds = "[(''dev-1'', ''new''), (''dev-2'', ''b'')]"
  have h1: "Null_line \<notin> set ?es" by simp
  have h2: "uniqueDevices ?es [] = Inr ?ds" by simp
  have "(''dev-1'', ''new'') \<in> set ?ds" by simp
  with last_name_wins [of ?es ?ds] h2
  have "distinct (map fst ?ds)" "last_name ''dev-1'' ?es = Some ''new''"
    by blast+
  with h1 h2 show ?thesis by simp
qed

subsection \<open>The response\<close>

lemma no_throw_next: "Throw \<notin> set (faults w) \<Longrightarrow> next_fault w \<noteq> Throw"
  by (cases "faults w") (auto simp: next_fault_def)

lemma no_throw_tl: "Throw \<notin> set fs \<Longrightarrow> Throw \<notin> set (tl fs)"
  by (cases fs) auto

lemma manageDNSRecord_no_throw:
  assumes "Throw \<notin> set (faults w)"
  shows "fst (manageDNSRecord d e w) \<noteq> Inl Thrown
       \<and> Throw \<notin> set (faults (snd (manageDNSRecord d e w)))"
proof -
  have t: "\<And>u. Throw \<notin> set (faults u) \<Longrightarrow> Throw \<notin> set (tl (faults u))
      \<and> Throw \<notin> set (tl (tl (faults u))) \<and> Throw \<notin> set (tl (tl (tl (faults u))))
      \<and> Throw \<notin> set (tl (tl (tl (tl (faults u)))))"
    by (simp add: no_throw_tl)
  have n: "next_fault w \<noteq> Throw" "\<And>c. next_fault (issue c w) \<noteq> Throw"
    "\<And>c c'. next_fault (issue c' (issue c w)) \<noteq> Throw"
    "\<And>c c' c''. next_fault (after_call c'' (issue c' (issue c w))) \<noteq> Throw"
    using t [OF assms] assms by (simp_all add: no_throw_next)
  show ?thesis
    using n t [OF assms]
    by (simp add: call_eqs split: fault.splits option.splits)
qed

lemma process_devices_no_throw:
  "Throw \<notin> set (faults w) \<Longrightarrow> fst (process_devices e ds acts w) \<noteq> Inl Thrown"
proof (induction ds arbitrary: acts w)
  case Nil
  show ?case by (simp add: return_io_def)
next
  case (Cons x ds)
  obtain i nm where x: "x = (i, nm)" by (cases x)
  show ?case
  proof (cases "lookupDevice (directory w i)")
    case None
    with Cons show ?thesis by (simp add: x process_devices_Cons)
  next
    case (Some a)
    let ?d = "\<lparr>dev_name = nm, dev_ipv4 = a\<rparr>"
    obtain r u where m: "manageDNSRecord ?d e w = (r, u)" by (cases "manageDNSRecord ?d e w")
    with manageDNSRecord_no_throw [OF Cons.prems, of ?d e]
    have "r \<noteq> Inl Thrown" "Throw \<notin> set (faults u)" by simp_all
    then obtain act where "r = Inr act"
      by (cases r) (auto intro: exn.exhaust)
    with Cons.IH [OF \<open>Throw \<notin> set (faults u)\<close>] m Some show ?thesis
      by (simp add: x process_devices_Cons bind_io_def)
  qed
qed

text \<open>
  Claim C9. A request whose method is not POST is answered with status 405. A POST whose
  batch is processed to completion is answered with status 200 and the action log as
  body; a POST during which anything raises is answered with status 500 and a plain-text
  body. The body of a request that cannot be decompressed or parsed raises, a \<open>null\<close> line
  raises, and a batch without one completes when no DNS call throws.
\<close>

theorem http_response:
  "(http_method req \<noteq> ''POST'' \<longrightarrow>
      fetch_handler req e w = (\<lparr>status = 405, body = Text ''Only POST requests are allowed''\<rparr>, w))
   \<and> (http_method req = ''POST'' \<and> handle_batch req e w = (Inr actions, w') \<longrightarrow>
      fetch_handler req e w = (\<lparr>status = 200, body = Json actions\<rparr>, w'))
   \<and> (http_method req = ''POST'' \<and> handle_batch req e w = (Inl err, w') \<longrightarrow>
      fetch_handler req e w = (\<lparr>status = 500, body = Text ''Error processing data''\<rparr>, w'))
   \<and> (lines req = None \<longrightarrow> handle_batch req e w = (Inl Thrown, w))
   \<and> (lines req = Some entries \<and> Null_line \<in> set entries \<longrightarrow>
      handle_batch req e w = (Inl Thrown, w))
   \<and> (lines req = Some entries \<and> Null_line \<notin> set entries \<and> Throw \<notin> set (faults w) \<longrightarrow>
      fst (handle_batch req e w) \<noteq> Inl Thrown)"
proof -
  have "fst (handle_batch req e w) \<noteq> Inl Thrown"
    if "lines req = Some entries" "Null_line \<notin> set entries" "Throw \<notin> set (faults w)"
  proof -
    from uniqueDevices_no_null [OF that(2), of "[]"]
    obtain devices where "uniqueDevices entries [] = Inr devices"
      by (cases "uniqueDevices entries []") (auto intro: exn.exhaust)
    with that(1) process_devices_no_throw [OF that(3)] show ?thesis
      by (simp add: handle_batch_def)
  qed
  then show ?thesis
    by (auto simp: fetch_handler_def handle_batch_def throw_io_def uniqueDevices_null)
qed

theorem http_response_witness:
  "http_method \<lparr>http_method = ''GET'', lines = None\<rparr> \<noteq> ''POST''
   \<and> fetch_handler \<lparr>http_method = ''GET'', lines = None\<rparr> demo_env (demo_world [] []) =
       (\<lparr>status = 405, body = Text ''Only POST requests are allowed''\<rparr>, demo_world [] [])
   \<and> Null_line \<notin> set [Entry (Some ''dev-1'') (Some ''b'')]
   \<and> Throw \<notin> set (faults (demo_world [] []))
   \<and> fst (fetch_handler \<lparr>http_method = ''POST'', lines = Some [Entry (Some ''dev-1'') (Some ''b'')]\<rparr>
            demo_env (demo_world [] [])) =
       \<lparr>status = 200,
        body = Json [\<lparr>action = ''created'', name = ''b.example.com'', ipv4 = ''10.0.0.1'',
                      deleted_duplicate = None\<rparr>]\<rparr>
   \<and> fetch_handler \<lparr>http_method = ''POST'', lines = None\<rparr> demo_env (demo_world [] []) =
       (\<lparr>status = 500, body = Text ''Error processing data''\<rparr>, demo_world [] [])"
proof -
  let ?w = "demo_world [] []"
  let ?get = "\<lparr>http_method = ''GET'', lines = None\<rparr>"
  let ?post = "\<lparr>http_method = ''POST'', lines = Some [Entry (Some ''dev-1'') (Some ''b'')]\<rparr>"
  let ?bad = "\<lparr>http_method = ''POST'', lines = None\<rparr>"
  let ?act = "\<lparr>action = ''created'', name = ''b.example.com'', ipv4 = ''10.0.0.1'',
               deleted_duplicate = None\<rparr>"
  have g: "http_method ?get \<noteq> ''POST''" by simp
  have n: "Null_line \<notin> set [Entry (Some ''dev-1'') (Some ''b'')]"
    "Throw \<notin> set (faults ?w)"
    by (simp_all add: demo_world_def)
  have b: "handle_batch ?post demo_env ?w = (Inr [?act], snd (handle_batch ?post demo_env ?w))"
    by (simp add: batch_defs demo_defs)
  have t: "handle_batch ?bad demo_env ?w = (Inl Thrown, ?w)"
    by (simp add: handle_batch_def throw_io_def)
  have "fetch_handler ?get demo_env ?w =
      (\<lparr>status = 405, body = Text ''Only POST requests are allowed''\<rparr>, ?w)"
    using http_response [where req = ?get and e = demo_env and w = ?w] g by blast
  moreover have "fetch_handler ?post demo_env ?w =
      (\<lparr>status = 200, body = Json [?act]\<rparr>, snd (handle_batch ?post demo_env ?w))"
    using http_response [where req = ?post and e = demo_env and w = ?w and actions = "[?act]"
        and w' = "snd (handle_batch ?post demo_env ?w)"] b
    by simp
  moreover have "fetch_handler ?bad demo_env ?w =
      (\<lparr>status = 500, body = Text ''Error processing data''\<rparr>, ?w)"
    using http_response [where req = ?bad and e = demo_env and w = ?w and err = Thrown and w' = ?w] t
    by simp
  ultimately show ?thesis
    using g n by simp
qed

end
